theory Spec2Isabelle
  imports Complex_Main "HOL-Library.Multiset"
begin

text \<open>
  A model of \<open>transform_projections.py\<close>: the field parsers \<open>parse_salary\<close> and
  \<open>parse_percent_str\<close>, the percentile ranker \<open>percentrank_inc\<close>, and
  \<open>transform\<close>, which derives and formats the columns of the output table. The
  definitions come first, in the order of the source; the properties follow.
\<close>

section \<open>Floating-point values\<close>

text \<open>
  The program computes on IEEE doubles (Python \<open>float\<close>, numpy \<open>float64\<close>).
  A double is modelled by its exact value: a finite double is the real number it denotes,
  and the special values are kept apart, because the program's behaviour depends on them:
  \<open>NaN\<close> is pandas' missing marker and never compares equal to anything, the
  infinities come out of a division by zero, and the negative zero decides the sign of
  such an infinity and prints as \<open>-0.00\<close>. \<open>Fin 0\<close> is \<open>+0.0\<close> and
  \<open>NegZero\<close> is \<open>-0.0\<close>.

  Binary rounding of results to 53 bits and overflow to infinity are not modelled:
  arithmetic on finite values is exact.
\<close>

datatype pyfloat = Fin real | NegZero | PInf | NInf | NaN

fun isnan :: "pyfloat \<Rightarrow> bool" where
  "isnan NaN = True"
| "isnan _ = False"

fun isinf :: "pyfloat \<Rightarrow> bool" where
  "isinf PInf = True"
| "isinf NInf = True"
| "isinf _ = False"

fun iszero :: "pyfloat \<Rightarrow> bool" where
  "iszero (Fin r) = (r = 0)"
| "iszero NegZero = True"
| "iszero _ = False"

text \<open>The sign bit, and the value of a finite double.\<close>

fun signbit :: "pyfloat \<Rightarrow> bool" where
  "signbit (Fin r) = (r < 0)"
| "signbit NegZero = True"
| "signbit PInf = False"
| "signbit NInf = True"
| "signbit NaN = False"

fun fval :: "pyfloat \<Rightarrow> real" where
  "fval (Fin r) = r"
| "fval _ = 0"

definition mkzero :: "bool \<Rightarrow> pyfloat" where
  "mkzero s = (if s then NegZero else Fin 0)"

definition mkinf :: "bool \<Rightarrow> pyfloat" where
  "mkinf s = (if s then NInf else PInf)"

definition mkfin :: "bool \<Rightarrow> real \<Rightarrow> pyfloat" where
  "mkfin s r = (if r = 0 then mkzero s else Fin r)"

text \<open>IEEE comparison: \<open>x == y\<close> and \<open>x < y\<close>. Both are false when an operand is
  \<open>NaN\<close>, and the two zeros are equal.\<close>

fun feq :: "pyfloat \<Rightarrow> pyfloat \<Rightarrow> bool" where
  "feq NaN _ = False"
| "feq _ NaN = False"
| "feq PInf y = (y = PInf)"
| "feq x PInf = False"
| "feq NInf y = (y = NInf)"
| "feq x NInf = False"
| "feq x y = (fval x = fval y)"

fun flt :: "pyfloat \<Rightarrow> pyfloat \<Rightarrow> bool" where
  "flt NaN _ = False"
| "flt _ NaN = False"
| "flt NInf y = (y \<noteq> NInf)"
| "flt x NInf = False"
| "flt PInf y = False"
| "flt x PInf = True"
| "flt x y = (fval x < fval y)"

section \<open>Arithmetic of numpy on doubles\<close>

text \<open>numpy raises nothing on a division by zero or an invalid operation: the result is
  an infinity or \<open>NaN\<close>.\<close>

definition fmul :: "pyfloat \<Rightarrow> pyfloat \<Rightarrow> pyfloat" where
  "fmul x y =
     (if isnan x \<or> isnan y then NaN
      else if isinf x \<or> isinf y then
        (if iszero x \<or> iszero y then NaN else mkinf (signbit x \<noteq> signbit y))
      else mkfin (signbit x \<noteq> signbit y) (fval x * fval y))"

definition fdiv :: "pyfloat \<Rightarrow> pyfloat \<Rightarrow> pyfloat" where
  "fdiv x y =
     (if isnan x \<or> isnan y then NaN
      else if isinf x then (if isinf y then NaN else mkinf (signbit x \<noteq> signbit y))
      else if isinf y then mkzero (signbit x \<noteq> signbit y)
      else if iszero y then (if iszero x then NaN else mkinf (signbit x \<noteq> signbit y))
      else mkfin (signbit x \<noteq> signbit y) (fval x / fval y))"

fun fneg :: "pyfloat \<Rightarrow> pyfloat" where
  "fneg (Fin r) = (if r = 0 then NegZero else Fin (- r))"
| "fneg NegZero = Fin 0"
| "fneg PInf = NInf"
| "fneg NInf = PInf"
| "fneg NaN = NaN"

definition fadd :: "pyfloat \<Rightarrow> pyfloat \<Rightarrow> pyfloat" where
  "fadd x y =
     (if isnan x \<or> isnan y then NaN
      else if isinf x then (if isinf y \<and> x \<noteq> y then NaN else x)
      else if isinf y then y
      else if fval x + fval y = 0 then
        (if x = NegZero \<and> y = NegZero then NegZero else Fin 0)
      else Fin (fval x + fval y))"

definition fsub :: "pyfloat \<Rightarrow> pyfloat \<Rightarrow> pyfloat" where
  "fsub x y = fadd x (fneg y)"

text \<open>Rounding to the nearest integer, ties to the even one (C's \<open>rint\<close>).\<close>

definition rint :: "real \<Rightarrow> int" where
  "rint r =
     (let f = \<lfloor>r\<rfloor>; d = r - of_int f
      in if d < 1 / 2 then f
         else if 1 / 2 < d then f + 1
         else if even f then f else f + 1)"

text \<open>\<open>Series.round(decimals)\<close> is numpy's \<open>around\<close>: multiply by \<open>10 ^ decimals\<close>,
  \<open>rint\<close>, divide again. The sign of a zero result is the sign of the argument.\<close>

definition np_round :: "nat \<Rightarrow> pyfloat \<Rightarrow> pyfloat" where
  "np_round decimals x =
     (if isnan x \<or> isinf x then x
      else mkfin (signbit x) (of_int (rint (fval x * 10 ^ decimals)) / 10 ^ decimals))"

section \<open>The percentile ranker\<close>

text \<open>
  \<open>np.sort\<close> on doubles orders by \<open>a < b\<close>, with every \<open>NaN\<close> after every
  number. Its result is that of any comparison sort, up to the order of \<open>-0.0\<close> and
  \<open>0.0\<close> among themselves, which \<open>==\<close> does not tell apart; it is modelled by
  insertion sort.
\<close>

definition np_lt :: "pyfloat \<Rightarrow> pyfloat \<Rightarrow> bool" where
  "np_lt a b = (flt a b \<or> (isnan b \<and> \<not> isnan a))"

fun np_insert :: "pyfloat \<Rightarrow> pyfloat list \<Rightarrow> pyfloat list" where
  "np_insert x [] = [x]"
| "np_insert x (y # ys) = (if np_lt x y then x # y # ys else y # np_insert x ys)"

fun np_sort :: "pyfloat list \<Rightarrow> pyfloat list" where
  "np_sort [] = []"
| "np_sort (x # xs) = np_insert x (np_sort xs)"

text \<open>\<open>np.where(sorted_vals == x)[0]\<close>: the indices of the elements equal to \<open>x\<close>,
  ascending.\<close>

definition where_eq :: "pyfloat list \<Rightarrow> pyfloat \<Rightarrow> nat list" where
  "where_eq sorted_vals x = filter (\<lambda>i. feq (sorted_vals ! i) x) [0..<length sorted_vals]"

definition percentrank_inc :: "pyfloat list \<Rightarrow> bool \<Rightarrow> pyfloat list" where
  "percentrank_inc values use_first =
     (let sorted_vals = np_sort values;
          n = length sorted_vals
      in if n \<le> 1 then map (\<lambda>_. Fin 0) values
         else map (\<lambda>x.
                let idxs = where_eq sorted_vals x
                in if length idxs = 0 then Fin (1 / 2)
                   else let idx = (if use_first then hd idxs else last idxs)
                        in Fin (real idx / real (n - 1))) values)"

section \<open>Notions used to state the ranker's properties\<close>

definition np_sorted :: "pyfloat list \<Rightarrow> bool" where
  "np_sorted xs = sorted_wrt (\<lambda>a b. \<not> np_lt b a) xs"

definition count_lt :: "pyfloat list \<Rightarrow> pyfloat \<Rightarrow> nat" where
  "count_lt xs x = length (filter (\<lambda>y. np_lt y x) xs)"

definition count_le :: "pyfloat list \<Rightarrow> pyfloat \<Rightarrow> nat" where
  "count_le xs x = length (filter (\<lambda>y. \<not> np_lt x y) xs)"

section \<open>Strings and the field parsers\<close>

text \<open>
  A Python \<open>str\<close> is modelled by the list of its characters, for text in ASCII.
  \<open>str.strip()\<close> and \<open>float()\<close> drop the same whitespace characters from both
  ends: tab, line feed, vertical tab, form feed, carriage return, the four separators
  \<open>0x1C\<close> to \<open>0x1F\<close> and the space.
\<close>

definition py_isspace :: "char \<Rightarrow> bool" where
  "py_isspace c =
     (let n = (of_char c :: nat) in (9 \<le> n \<and> n \<le> 13) \<or> (28 \<le> n \<and> n \<le> 32))"

definition py_strip :: "string \<Rightarrow> string" where
  "py_strip s = rev (dropWhile py_isspace (rev (dropWhile py_isspace s)))"

text \<open>\<open>s.replace(c, "")\<close> for a one-character \<open>c\<close>.\<close>

definition remove_char :: "char \<Rightarrow> string \<Rightarrow> string" where
  "remove_char c s = filter (\<lambda>d. d \<noteq> c) s"

definition is_digit :: "char \<Rightarrow> bool" where
  "is_digit c = (let n = (of_char c :: nat) in 48 \<le> n \<and> n \<le> 57)"

definition digit_val :: "char \<Rightarrow> nat" where
  "digit_val c = of_char c - 48"

definition py_lower :: "char \<Rightarrow> char" where
  "py_lower c =
     (let n = (of_char c :: nat) in if 65 \<le> n \<and> n \<le> 90 then char_of (n + 32) else c)"

text \<open>
  The text \<open>float()\<close> accepts, after stripping:
  \<^verbatim>\<open>
  floatvalue  ::= [sign] (floatnumber | "inf" | "infinity" | "nan")   (any letter case)
  floatnumber ::= number [("e" | "E") [sign] digitpart]
  number      ::= [digitpart] "." digitpart | digitpart ["."]
  digitpart   ::= digit (["_"] digit)*
  \<close>
  \<open>digitpart\<close> reads the longest digit part at the head of a text and returns its
  digits with the rest of the text.
\<close>

fun digitpart :: "string \<Rightarrow> nat list \<times> string" where
  "digitpart (c # u # d # rest) =
     (if is_digit c then
        (if u = CHR ''_'' \<and> is_digit d then apfst ((#) (digit_val c)) (digitpart (d # rest))
         else apfst ((#) (digit_val c)) (digitpart (u # d # rest)))
      else ([], c # u # d # rest))"
| "digitpart (c # cs) =
     (if is_digit c then apfst ((#) (digit_val c)) (digitpart cs) else ([], c # cs))"
| "digitpart [] = ([], [])"

definition digits_value :: "nat list \<Rightarrow> nat" where
  "digits_value ds = foldl (\<lambda>acc d. 10 * acc + d) 0 ds"

definition split_sign :: "string \<Rightarrow> bool \<times> string" where
  "split_sign s =
     (case s of
        [] \<Rightarrow> (False, [])
      | c # r \<Rightarrow> if c = CHR ''-'' then (True, r) else if c = CHR ''+'' then (False, r)
                 else (False, s))"

definition parse_exponent :: "string \<Rightarrow> int option" where
  "parse_exponent s =
     (case s of
        [] \<Rightarrow> Some 0
      | c # r \<Rightarrow>
          if c = CHR ''e'' \<or> c = CHR ''E'' then
            (let (neg, t) = split_sign r; (ds, rest) = digitpart t
             in if ds = [] \<or> rest \<noteq> [] then None
                else Some (if neg then - int (digits_value ds) else int (digits_value ds)))
          else None)"

definition parse_number :: "string \<Rightarrow> real option" where
  "parse_number s =
     (let (ip, r1) = digitpart s;
          (fp, r2) = (case r1 of
                        [] \<Rightarrow> ([], [])
                      | c # r \<Rightarrow> if c = CHR ''.'' then digitpart r else ([], r1))
      in if ip = [] \<and> fp = [] then None
         else (case parse_exponent r2 of
                 None \<Rightarrow> None
               | Some e \<Rightarrow>
                   Some (real (digits_value (ip @ fp)) * 10 powi (e - int (length fp)))))"

text \<open>\<open>float(s)\<close>; \<open>None\<close> stands for \<open>ValueError\<close>.\<close>

definition py_float :: "string \<Rightarrow> pyfloat option" where
  "py_float s =
     (let (neg, u) = split_sign (py_strip s);
          l = map py_lower u
      in if l = ''inf'' \<or> l = ''infinity'' then Some (mkinf neg)
         else if l = ''nan'' then Some NaN
         else (case parse_number u of
                 None \<Rightarrow> None
               | Some r \<Rightarrow> Some (mkfin neg r)))"

text \<open>
  A cell of a pandas column: \<open>None\<close>, a string, or a number (\<open>NaN\<close> is the marker
  of a missing cell).
\<close>

datatype cell = PyNone | Str string | Num pyfloat


text \<open>
  \<open>parse_salary\<close> and \<open>parse_percent_str\<close>. On a cell that holds a number,
  \<open>str\<close> gives its shortest representation, which has no whitespace, \<open>$\<close>,
  comma or \<open>%\<close>, and \<open>float\<close> reads it back as the same number.
\<close>

fun parse_salary :: "cell \<Rightarrow> pyfloat" where
  "parse_salary PyNone = NaN"
| "parse_salary (Num x) = x"
| "parse_salary (Str s) =
     (case py_float (remove_char CHR '','' (remove_char CHR ''$'' (py_strip s))) of
        Some v \<Rightarrow> v
      | None \<Rightarrow> NaN)"

fun parse_percent_str :: "cell \<Rightarrow> pyfloat" where
  "parse_percent_str PyNone = Fin 0"
| "parse_percent_str (Num x) = (if isnan x then Fin 0 else x)"
| "parse_percent_str (Str s) =
     (let t = remove_char CHR ''%'' (py_strip s)
      in if t = [] then Fin 0
         else (case py_float t of
                 Some v \<Rightarrow> v
               | None \<Rightarrow> Fin 0))"

section \<open>The formatter\<close>

text \<open>The decimal digits of a natural number.\<close>

definition digit_char :: "nat \<Rightarrow> char" where
  "digit_char d = ''0123456789'' ! d"

fun nat_digits :: "nat \<Rightarrow> string" where
  "nat_digits n =
     (if n < 10 then [digit_char n]
      else nat_digits (n div 10) @ [digit_char (n mod 10)])"

declare nat_digits.simps [simp del]

text \<open>The \<open>,\<close> option of a format: a comma before every group of three digits,
  counted from the right.\<close>

function group3 :: "string \<Rightarrow> string" where
  "group3 s =
     (if length s \<le> 3 then s
      else group3 (take (length s - 3) s) @ CHR '','' # drop (length s - 3) s)"
  by pat_completeness auto
termination
  by (relation "measure length") auto

declare group3.simps [simp del]

definition pad_digits :: "nat \<Rightarrow> nat \<Rightarrow> string" where
  "pad_digits width k =
     (let ds = nat_digits k in replicate (width - length ds) CHR ''0'' @ ds)"

text \<open>
  \<open>format(x, ".<prec>f")\<close>, with the \<open>,\<close> option when \<open>grouping\<close>: the value
  is rounded to \<open>prec\<close> decimals, ties to even, and a negative value that rounds to
  zero keeps its sign.
\<close>

definition fmt_fixed :: "bool \<Rightarrow> nat \<Rightarrow> pyfloat \<Rightarrow> string" where
  "fmt_fixed grouping prec x =
     (if isnan x then ''nan''
      else if isinf x then (if signbit x then ''-inf'' else ''inf'')
      else
        (let m = nat (rint (\<bar>fval x\<bar> * 10 ^ prec));
             ip = nat_digits (m div 10 ^ prec)
         in (if signbit x then ''-'' else '''')
            @ (if grouping then group3 ip else ip)
            @ (if prec = 0 then '''' else CHR ''.'' # pad_digits prec (m mod 10 ^ prec))))"

datatype error =
    KeyError "string list"
  | TypeError
  | ValueError
  | OverflowError
  | FileNotFoundError

text \<open>\<open>int(x)\<close> truncates towards zero and raises on \<open>NaN\<close> and on an infinity.\<close>

definition py_int :: "pyfloat \<Rightarrow> error + int" where
  "py_int x =
     (if isnan x then Inl ValueError
      else if isinf x then Inl OverflowError
      else Inr (if 0 \<le> fval x then \<lfloor>fval x\<rfloor> else \<lceil>fval x\<rceil>))"

definition int_str :: "int \<Rightarrow> string" where
  "int_str i = (if i < 0 then CHR ''-'' # nat_digits (nat (- i)) else nat_digits (nat i))"

text \<open>The five display formats of \<open>transform\<close>.\<close>

definition fmt_salary :: "pyfloat \<Rightarrow> string" where
  "fmt_salary x = (if \<not> isnan x then CHR ''$'' # fmt_fixed True 2 x else '''')"

definition fmt_value_per_1k :: "pyfloat \<Rightarrow> string" where
  "fmt_value_per_1k x = (if \<not> isnan x then CHR ''$'' # fmt_fixed False 2 x else '''')"

definition fmt_ceiling_pct_rank :: "pyfloat \<Rightarrow> string" where
  "fmt_ceiling_pct_rank x = fmt_fixed False 2 x @ ''%''"

definition fmt_ownership_pct_rank :: "pyfloat \<Rightarrow> error + string" where
  "fmt_ownership_pct_rank x =
     (case py_int x of Inl e \<Rightarrow> Inl e | Inr i \<Rightarrow> Inr (int_str i @ ''%''))"

definition fmt_leverage_delta :: "pyfloat \<Rightarrow> string" where
  "fmt_leverage_delta x = fmt_fixed False 1 x @ ''%''"

section \<open>Tables and the transform\<close>

text \<open>
  A \<open>DataFrame\<close> is the list of its columns in order, each with its name; the columns
  of a well-formed frame have distinct names and one length, the number of rows. The
  frame that \<open>pd.read_csv\<close> returns for a file is taken as given: a column of numbers
  holds \<open>Num\<close> cells, a column of text holds \<open>Str\<close> cells and \<open>Num NaN\<close> where the
  file has no value.
\<close>

type_synonym column = "cell list"
type_synonym dataframe = "(string \<times> column) list"

definition wf_frame :: "dataframe \<Rightarrow> nat \<Rightarrow> bool" where
  "wf_frame df n = (distinct (map fst df) \<and> list_all (\<lambda>(name, col). length col = n) df)"

text \<open>\<open>df[name]\<close>, \<open>df[name] = col\<close> and \<open>df[names]\<close>.\<close>

definition get_col :: "dataframe \<Rightarrow> string \<Rightarrow> error + column" where
  "get_col df name = (case map_of df name of None \<Rightarrow> Inl (KeyError [name]) | Some col \<Rightarrow> Inr col)"

definition set_col :: "dataframe \<Rightarrow> string \<Rightarrow> column \<Rightarrow> dataframe" where
  "set_col df name col =
     (if name \<in> set (map fst df)
      then map (\<lambda>(k, v). if k = name then (k, col) else (k, v)) df
      else df @ [(name, col)])"

definition select_cols :: "dataframe \<Rightarrow> string list \<Rightarrow> error + dataframe" where
  "select_cols df names =
     (let missing = filter (\<lambda>name. map_of df name = None) names
      in if missing \<noteq> [] then Inl (KeyError missing)
         else Inr (map (\<lambda>name. (name, the (map_of df name))) names))"

definition rename_cols :: "(string \<times> string) list \<Rightarrow> dataframe \<Rightarrow> dataframe" where
  "rename_cols m df =
     map (\<lambda>(k, v). (case map_of m k of None \<Rightarrow> k | Some k' \<Rightarrow> k', v)) df"

text \<open>Sequencing of steps that may raise.\<close>

definition bind :: "error + 'a \<Rightarrow> ('a \<Rightarrow> error + 'b) \<Rightarrow> error + 'b" where
  "bind m f = (case m of Inl e \<Rightarrow> Inl e | Inr x \<Rightarrow> f x)"

fun apply_raising :: "('a \<Rightarrow> error + 'b) \<Rightarrow> 'a list \<Rightarrow> error + 'b list" where
  "apply_raising f [] = Inr []"
| "apply_raising f (x # xs) =
     bind (f x) (\<lambda>y. bind (apply_raising f xs) (\<lambda>ys. Inr (y # ys)))"

text \<open>
  Arithmetic on a column needs numbers: on a column that holds a string or \<open>None\<close>,
  pandas raises \<open>TypeError\<close>.
\<close>

fun cell_float :: "cell \<Rightarrow> error + pyfloat" where
  "cell_float (Num x) = Inr x"
| "cell_float _ = Inl TypeError"

definition to_floats :: "column \<Rightarrow> error + pyfloat list" where
  "to_floats col = apply_raising cell_float col"

definition out_cols :: "string list" where
  "out_cols =
     [''Player'', ''DK Pos'', ''Team'', ''Opp'', ''DK Salary_out'', ''DK Proj'', ''DK Value'',
      ''OWN_FRAC'', ''DK Floor'', ''DK Ceiling'', ''LEVERAGE_SCORE'', ''VALUE_PER_1k'',
      ''CEILING_PCT_RANK_out'', ''OWNERSHIP_PCT_RANK_out'', ''leverage_delta_out'', ''id'']"

definition out_rename :: "(string \<times> string) list" where
  "out_rename =
     [(''DK Salary_out'', ''DK Salary''),
      (''CEILING_PCT_RANK_out'', ''CEILING_PCT_RANK''),
      (''OWNERSHIP_PCT_RANK_out'', ''OWNERSHIP_PCT_RANK''),
      (''leverage_delta_out'', ''leverage_delta'')]"

text \<open>
  The body of \<open>transform\<close> between \<open>pd.read_csv\<close> and \<open>to_csv\<close>, statement by
  statement. The first renaming of the source maps every name to itself and is left out.
  The result is \<open>out_df\<close>, or the exception raised.
\<close>

definition transform_frame :: "dataframe \<Rightarrow> error + dataframe" where
  "transform_frame df0 =
     bind (get_col df0 ''DK Salary'') (\<lambda>salary_col.
     let df1 = set_col df0 ''salary_num'' (map (\<lambda>c. Num (parse_salary c)) salary_col) in
     bind (get_col df1 ''Large Field'') (\<lambda>large_col.
     let large_field_pct = map parse_percent_str large_col;
         df2 = set_col df1 ''OWN_FRAC''
                 (map (\<lambda>x. Num (np_round 2 (fdiv x (Fin 100)))) large_field_pct) in
     bind (get_col df2 ''DK Ceiling'') (\<lambda>ceiling_col.
     bind (to_floats ceiling_col) (\<lambda>ceiling.
     let df3 = set_col df2 ''LEVERAGE_SCORE''
                 (map (\<lambda>(c, x). Num (fmul c (fsub (Fin 1) (fdiv x (Fin 100)))))
                    (zip ceiling large_field_pct)) in
     bind (get_col df3 ''DK Proj'') (\<lambda>proj_col.
     bind (get_col df3 ''salary_num'') (\<lambda>salary_num_col.
     bind (to_floats salary_num_col) (\<lambda>salary_num.
     bind (to_floats proj_col) (\<lambda>proj.
     let df4 = set_col df3 ''VALUE_PER_1k_raw''
                 (map (\<lambda>(p, s). Num (fdiv p (fdiv s (Fin 1000)))) (zip proj salary_num)) in
     bind (get_col df4 ''DK Ceiling'') (\<lambda>ceiling_vals_col.
     bind (to_floats ceiling_vals_col) (\<lambda>ceiling_vals.
     let ceiling_rank = percentrank_inc ceiling_vals False;
         ownership_rank = percentrank_inc large_field_pct True;
         df5 = set_col df4 ''CEILING_PCT_RANK''
                 (map (\<lambda>r. Num (np_round 2 (fmul r (Fin 100)))) ceiling_rank);
         df6 = set_col df5 ''OWNERSHIP_PCT_RANK''
                 (map (\<lambda>r. Num (np_round 0 (fmul r (Fin 100)))) ownership_rank) in
     bind (get_col df6 ''CEILING_PCT_RANK'') (\<lambda>cpr_col.
     bind (get_col df6 ''OWNERSHIP_PCT_RANK'') (\<lambda>opr_col.
     bind (to_floats cpr_col) (\<lambda>cpr.
     bind (to_floats opr_col) (\<lambda>opr.
     let df7 = set_col df6 ''leverage_delta_raw''
                 (map (\<lambda>(c, w). Num (fsub c w)) (zip cpr opr)) in
     bind (get_col df7 ''salary_num'') (\<lambda>c8.
     bind (to_floats c8) (\<lambda>v8.
     let df8 = set_col df7 ''DK Salary_out'' (map (\<lambda>x. Str (fmt_salary x)) v8) in
     bind (get_col df8 ''VALUE_PER_1k_raw'') (\<lambda>c9.
     bind (to_floats c9) (\<lambda>v9.
     let df9 = set_col df8 ''VALUE_PER_1k'' (map (\<lambda>x. Str (fmt_value_per_1k x)) v9) in
     bind (get_col df9 ''CEILING_PCT_RANK'') (\<lambda>c10.
     bind (to_floats c10) (\<lambda>v10.
     let df10 = set_col df9 ''CEILING_PCT_RANK_out''
                  (map (\<lambda>x. Str (fmt_ceiling_pct_rank x)) v10) in
     bind (get_col df10 ''OWNERSHIP_PCT_RANK'') (\<lambda>c11.
     bind (to_floats c11) (\<lambda>v11.
     bind (apply_raising fmt_ownership_pct_rank v11) (\<lambda>s11.
     let df11 = set_col df10 ''OWNERSHIP_PCT_RANK_out'' (map Str s11) in
     bind (get_col df11 ''leverage_delta_raw'') (\<lambda>c12.
     bind (to_floats c12) (\<lambda>v12.
     let df12 = set_col df11 ''leverage_delta_out''
                  (map (\<lambda>x. Str (fmt_leverage_delta x)) v12) in
     bind (select_cols df12 out_cols) (\<lambda>out_df.
     Inr (rename_cols out_rename out_df)))))))))))))))))))))))))))"

text \<open>
  \<open>transform(input_csv, output_csv)\<close> on a file system. A file is modelled by the frame
  that reading it gives, and writing a frame stores it under the output path; a read of
  a path that holds no file raises, and a write always succeeds. \<open>stdout\<close> collects
  the lines printed.
\<close>

record world =
  files :: "string \<rightharpoonup> dataframe"
  stdout :: "string list"

definition transform :: "string \<Rightarrow> string \<Rightarrow> world \<Rightarrow> (error + unit) \<times> world" where
  "transform input_csv output_csv w =
     (case files w input_csv of
        None \<Rightarrow> (Inl FileNotFoundError, w)
      | Some df \<Rightarrow>
          (case transform_frame df of
             Inl e \<Rightarrow> (Inl e, w)
           | Inr out_df \<Rightarrow>
               (Inr (),
                w\<lparr>files := (files w)(output_csv \<mapsto> out_df),
                  stdout := stdout w
                    @ [''Saved transformed projections (large field) to '' @ output_csv]\<rparr>)))"

section \<open>Notions used to state the transform's properties\<close>

text \<open>The keys of \<open>col_map\<close>, the input columns the transform expects, and those of
  them that its statements read.\<close>

definition col_map_names :: "string list" where
  "col_map_names =
     [''Player'', ''DK Pos'', ''Team'', ''Opp'', ''DK Salary'', ''DK Proj'', ''DK Value'',
      ''Small Field'', ''Large Field'', ''DK Floor'', ''DK Ceiling'', ''id'']"

definition read_cols :: "string list" where
  "read_cols =
     [''Player'', ''DK Pos'', ''Team'', ''Opp'', ''DK Salary'', ''DK Proj'', ''DK Value'',
      ''Large Field'', ''DK Floor'', ''DK Ceiling'', ''id'']"

definition has_col :: "dataframe \<Rightarrow> string \<Rightarrow> bool" where
  "has_col df name = (map_of df name \<noteq> None)"

definition column_of :: "dataframe \<Rightarrow> string \<Rightarrow> column" where
  "column_of df name = (case map_of df name of Some col \<Rightarrow> col | None \<Rightarrow> [])"

fun is_num :: "cell \<Rightarrow> bool" where
  "is_num (Num x) = True"
| "is_num _ = False"

fun num_of :: "cell \<Rightarrow> pyfloat" where
  "num_of (Num x) = x"
| "num_of _ = NaN"

definition floats_of :: "dataframe \<Rightarrow> string \<Rightarrow> pyfloat list" where
  "floats_of df name = map num_of (column_of df name)"

text \<open>An input the transform is meant for: a well-formed frame of \<open>n\<close> rows that has
  every column the transform reads, with numbers in the projection and ceiling columns.\<close>

definition valid_input :: "dataframe \<Rightarrow> nat \<Rightarrow> bool" where
  "valid_input df n =
     (wf_frame df n \<and> list_all (has_col df) read_cols
      \<and> list_all is_num (column_of df ''DK Ceiling'')
      \<and> list_all is_num (column_of df ''DK Proj''))"

text \<open>The columns the transform derives, as Python names them.\<close>

definition salary_num :: "dataframe \<Rightarrow> pyfloat list" where
  "salary_num df = map parse_salary (column_of df ''DK Salary'')"

definition large_field_pct :: "dataframe \<Rightarrow> pyfloat list" where
  "large_field_pct df = map parse_percent_str (column_of df ''Large Field'')"

definition ceiling_rank :: "dataframe \<Rightarrow> pyfloat list" where
  "ceiling_rank df = percentrank_inc (floats_of df ''DK Ceiling'') False"

definition ownership_rank :: "dataframe \<Rightarrow> pyfloat list" where
  "ownership_rank df = percentrank_inc (large_field_pct df) True"

text \<open>Frames used as examples.\<close>

definition two_row_frame :: dataframe where
  "two_row_frame =
     [(''Player'', [Str ''A'', Str ''B'']),
      (''DK Pos'', [Str ''QB'', Str ''RB'']),
      (''Team'', [Str ''X'', Str ''Y'']),
      (''Opp'', [Str ''Y'', Str ''X'']),
      (''DK Salary'', [Str ''$5,600'', Str ''$0'']),
      (''DK Proj'', [Num (Fin 20), Num (Fin 10)]),
      (''DK Value'', [Num (Fin 3), Num (Fin 2)]),
      (''Small Field'', [Str ''10%'', Str ''20%'']),
      (''Large Field'', [Str ''50%'', Str ''50%'']),
      (''DK Floor'', [Num (Fin 1), Num (Fin 2)]),
      (''DK Ceiling'', [Num (Fin 10), Num (Fin 20)]),
      (''id'', [Num (Fin 1), Num (Fin 2)])]"

definition four_row_frame :: dataframe where
  "four_row_frame =
     [(''Player'', [Str ''A'', Str ''B'', Str ''C'', Str ''D'']),
      (''DK Pos'', [Str ''QB'', Str ''RB'', Str ''WR'', Str ''TE'']),
      (''Team'', [Str ''X'', Str ''Y'', Str ''X'', Str ''Y'']),
      (''Opp'', [Str ''Y'', Str ''X'', Str ''Y'', Str ''X'']),
      (''DK Salary'', [Str ''$5,600'', Str ''$4,000'', Str '''', Str ''$3,000'']),
      (''DK Proj'', [Num (Fin 20), Num (Fin 10), Num (Fin 8), Num (Fin 6)]),
      (''DK Value'', [Num (Fin 3), Num (Fin 2), Num (Fin 2), Num (Fin 2)]),
      (''Small Field'', [Str ''10%'', Str ''20%'', Str ''5%'', Str ''1%'']),
      (''Large Field'', [Str ''3%'', Str ''1%'', Str ''2%'', Str ''4%'']),
      (''DK Floor'', [Num (Fin 1), Num (Fin 2), Num (Fin 1), Num (Fin 1)]),
      (''DK Ceiling'', [Num (Fin 2), Num (Fin 1), Num NaN, Num (Fin 4)]),
      (''id'', [Num (Fin 1), Num (Fin 2), Num (Fin 3), Num (Fin 4)])]"

definition drop_col :: "string \<Rightarrow> dataframe \<Rightarrow> dataframe" where
  "drop_col name df = filter (\<lambda>(k, v). k \<noteq> name) df"

definition example_world :: "dataframe \<Rightarrow> world" where
  "example_world df = \<lparr>files = [''in.csv'' \<mapsto> df], stdout = []\<rparr>"

section \<open>Properties of the percentile ranker\<close>

lemma length_np_insert: "length (np_insert x xs) = Suc (length xs)"
  by (induction xs) auto

lemma length_np_sort: "length (np_sort xs) = length xs"
  by (induction xs) (auto simp: length_np_insert)

lemma length_percentrank_inc: "length (percentrank_inc values uf) = length values"
  by (simp add: percentrank_inc_def Let_def)

lemma mset_np_insert: "mset (np_insert x xs) = add_mset x (mset xs)"
  by (induction xs) auto

lemma mset_np_sort: "mset (np_sort xs) = mset xs"
  by (induction xs) (auto simp: mset_np_insert)

lemma set_np_sort: "set (np_sort xs) = set xs"
  by (metis mset_np_sort set_mset_mset)

lemma np_lt_trans_le: "\<not> np_lt b a \<Longrightarrow> np_lt b x \<Longrightarrow> np_lt a x"
  by (cases a; cases b; cases x) (auto simp: np_lt_def)

lemma np_le_trans: "\<not> np_lt b a \<Longrightarrow> \<not> np_lt x b \<Longrightarrow> \<not> np_lt x a"
  by (cases a; cases b; cases x) (auto simp: np_lt_def)

lemma np_lt_total: "np_lt a b \<Longrightarrow> \<not> np_lt b a"
  by (cases a; cases b) (auto simp: np_lt_def)

lemma feq_iff_np_lt: "\<not> isnan x \<Longrightarrow> feq y x \<longleftrightarrow> \<not> np_lt y x \<and> \<not> np_lt x y"
  by (cases x; cases y) (auto simp: np_lt_def)

lemma feq_refl: "\<not> isnan x \<Longrightarrow> feq x x"
  by (cases x) auto

lemma feq_NaN_right: "feq y NaN = False"
  by (cases y) auto

lemma np_sorted_insert: "np_sorted xs \<Longrightarrow> np_sorted (np_insert x xs)"
proof (induction xs)
  case Nil
  then show ?case by (simp add: np_sorted_def)
next
  case (Cons y ys)
  have set_ins: "set (np_insert x ys) = insert x (set ys)"
    by (metis mset_np_insert set_mset_add_mset_insert set_mset_mset)
  from Cons.prems have ys: "np_sorted ys" and y: "\<forall>b\<in>set ys. \<not> np_lt b y"
    by (simp_all add: np_sorted_def)
  show ?case
  proof (cases "np_lt x y")
    case True
    then have yx: "\<not> np_lt y x" by (rule np_lt_total)
    have "\<not> np_lt b x" if "b \<in> set ys" for b
      using np_le_trans [OF yx] y that by blast
    with True yx Cons.prems show ?thesis
      by (simp add: np_sorted_def)
  next
    case False
    from Cons.IH [OF ys] have "np_sorted (np_insert x ys)" .
    with False y show ?thesis
      by (simp add: np_sorted_def set_ins)
  qed
qed

lemma np_sorted_np_sort: "np_sorted (np_sort xs)"
proof (induction xs)
  case Nil
  show ?case by (simp add: np_sorted_def)
next
  case (Cons x xs)
  then show ?case by (simp add: np_sorted_insert)
qed

lemma filter_prefix_closed:
  "sorted_wrt R s \<Longrightarrow> (\<And>a b. R a b \<Longrightarrow> P b \<Longrightarrow> P a) \<Longrightarrow> filter P s = takeWhile P s"
proof (induction s)
  case Nil
  then show ?case by simp
next
  case (Cons a s)
  show ?case
  proof (cases "P a")
    case True
    with Cons show ?thesis by simp
  next
    case False
    have "\<not> P b" if "b \<in> set s" for b
      using Cons.prems that False by auto
    then have "filter P s = []" by (simp add: filter_empty_conv)
    with False show ?thesis by simp
  qed
qed

lemma prefix_closed_nth:
  assumes "sorted_wrt R s" and cl: "\<And>a b. R a b \<Longrightarrow> P b \<Longrightarrow> P a" and "i < length s"
  shows "P (s ! i) \<longleftrightarrow> i < length (filter P s)"
proof -
  have eq: "filter P s = takeWhile P s"
    using assms(1) cl by (rule filter_prefix_closed)
  let ?k = "length (takeWhile P s)"
  show ?thesis
  proof
    assume Pi: "P (s ! i)"
    show "i < length (filter P s)"
    proof (rule ccontr)
      assume "\<not> i < length (filter P s)"
      then have ki: "?k \<le> i" by (simp add: eq)
      with assms(3) have klt: "?k < length s" by simp
      then have nP: "\<not> P (s ! ?k)" by (rule nth_length_takeWhile)
      show False
      proof (cases "?k = i")
        case True
        with nP Pi show False by simp
      next
        case False
        with ki have "?k < i" by simp
        with assms(1,3) have "R (s ! ?k) (s ! i)" by (simp add: sorted_wrt_nth_less)
        with Pi cl nP show False by blast
      qed
    qed
  next
    assume "i < length (filter P s)"
    then have "i < ?k" by (simp add: eq)
    then have "s ! i \<in> set (takeWhile P s)"
      by (metis nth_mem takeWhile_nth)
    then show "P (s ! i)" by (rule set_takeWhileD [THEN conjunct2])
  qed
qed

lemma count_lt_le: "count_lt xs x \<le> count_le xs x"
  unfolding count_lt_def count_le_def
  by (induction xs) (auto dest: np_lt_total)

lemma count_le_length: "count_le xs x \<le> length xs"
  by (simp add: count_le_def)

lemma count_lt_np_sort: "count_lt (np_sort xs) x = count_lt xs x"
  unfolding count_lt_def
  by (metis mset_np_sort mset_filter size_mset)

lemma count_le_np_sort: "count_le (np_sort xs) x = count_le xs x"
  unfolding count_le_def
  by (metis mset_np_sort mset_filter size_mset)

lemma where_eq_sorted:
  assumes "np_sorted s" "\<not> isnan x"
  shows "where_eq s x = [count_lt s x ..< count_le s x]"
proof -
  have lt: "np_lt (s ! i) x \<longleftrightarrow> i < count_lt s x" if "i < length s" for i
    unfolding count_lt_def
    using assms(1) that
    by (intro prefix_closed_nth [where R = "\<lambda>a b. \<not> np_lt b a"])
       (auto simp: np_sorted_def intro: np_lt_trans_le)
  have le: "\<not> np_lt x (s ! i) \<longleftrightarrow> i < count_le s x" if "i < length s" for i
    unfolding count_le_def
    using assms(1) that
    by (intro prefix_closed_nth [where R = "\<lambda>a b. \<not> np_lt b a"])
       (auto simp: np_sorted_def dest: np_le_trans)
  have "where_eq s x = filter (\<lambda>i. count_lt s x \<le> i \<and> i < count_le s x) [0..<length s]"
    unfolding where_eq_def
    by (rule filter_cong) (auto simp: feq_iff_np_lt [OF assms(2)] lt le)
  also have "\<dots> = [count_lt s x ..< count_le s x]"
  proof -
    have "sorted (filter (\<lambda>i. count_lt s x \<le> i \<and> i < count_le s x) [0..<length s])"
      "distinct (filter (\<lambda>i. count_lt s x \<le> i \<and> i < count_le s x) [0..<length s])"
      by (simp_all add: sorted_wrt_filter)
    moreover have "set (filter (\<lambda>i. count_lt s x \<le> i \<and> i < count_le s x) [0..<length s])
        = set [count_lt s x ..< count_le s x]"
      using count_le_length [of s x] by auto
    ultimately show ?thesis
      by (intro sorted_distinct_set_unique) simp_all
  qed
  finally show ?thesis .
qed

lemma count_lt_less_le:
  "x \<in> set xs \<Longrightarrow> \<not> isnan x \<Longrightarrow> count_lt xs x < count_le xs x"
proof (induction xs)
  case Nil
  then show ?case by simp
next
  case (Cons y ys)
  have self: "\<not> np_lt x x" using np_lt_total by blast
  show ?case
  proof (cases "x = y")
    case True
    have "count_lt ys x \<le> count_le ys x" by (rule count_lt_le)
    with True self show ?thesis by (simp add: count_lt_def count_le_def)
  next
    case False
    with Cons have "count_lt ys x < count_le ys x" by simp
    then show ?thesis
      using np_lt_total [of y x] by (auto simp: count_lt_def count_le_def)
  qed
qed

lemma where_eq_np_sort:
  "\<not> isnan x \<Longrightarrow> where_eq (np_sort xs) x = [count_lt xs x ..< count_le xs x]"
  using where_eq_sorted [OF np_sorted_np_sort, of x xs]
  by (simp add: count_lt_np_sort count_le_np_sort)

lemma where_eq_NaN: "where_eq s NaN = []"
  by (simp add: where_eq_def feq_NaN_right)

lemma percentrank_inc_nth:
  assumes "2 \<le> length xs" "i < length xs"
  shows "percentrank_inc xs uf ! i =
     (if isnan (xs ! i) then Fin (1 / 2)
      else Fin (real (if uf then count_lt xs (xs ! i) else count_le xs (xs ! i) - 1)
                / real (length xs - 1)))"
proof (cases "isnan (xs ! i)")
  case True
  then have "xs ! i = NaN" by (cases "xs ! i") auto
  with assms show ?thesis
    by (simp add: percentrank_inc_def Let_def length_np_sort where_eq_NaN)
next
  case False
  from assms(2) have "xs ! i \<in> set xs" by simp
  then have lt: "count_lt xs (xs ! i) < count_le xs (xs ! i)"
    using False by (rule count_lt_less_le)
  have w: "where_eq (np_sort xs) (xs ! i) = [count_lt xs (xs ! i) ..< count_le xs (xs ! i)]"
    using False by (rule where_eq_np_sort)
  from lt have "hd [count_lt xs (xs ! i) ..< count_le xs (xs ! i)] = count_lt xs (xs ! i)"
    and "last [count_lt xs (xs ! i) ..< count_le xs (xs ! i)] = count_le xs (xs ! i) - 1"
    by (simp_all add: last_upt)
  with assms False lt show ?thesis
    by (simp add: percentrank_inc_def Let_def length_np_sort w)
qed

lemma mset_eq_of_bij:
  assumes bij: "bij_betw p {..<length xs} {..<length xs}"
    and len: "length ys = length xs"
    and nth: "\<forall>i<length xs. ys ! (p i) = xs ! i"
  shows "mset ys = mset xs"
proof -
  let ?n = "length xs"
  have inj: "inj_on p {..<?n}" and img: "p ` {..<?n} = {..<?n}"
    using bij by (auto simp: bij_betw_def)
  have "mset xs = image_mset (\<lambda>i. xs ! i) (mset [0..<?n])"
    by (metis map_nth mset_map)
  also have "\<dots> = image_mset (\<lambda>i. ys ! (p i)) (mset [0..<?n])"
    using nth by (intro image_mset_cong) simp
  also have "\<dots> = image_mset (\<lambda>i. ys ! i) (image_mset p (mset_set {..<?n}))"
    by (simp add: image_mset.compositionality comp_def mset_upt atLeast0LessThan)
  also have "image_mset p (mset_set {..<?n}) = mset_set {..<?n}"
    using inj img by (simp add: image_mset_mset_set)
  also have "image_mset (\<lambda>i. ys ! i) (mset_set {..<?n}) = mset ys"
    by (metis atLeast0LessThan len map_nth mset_map mset_upt)
  finally show ?thesis by simp
qed

lemma count_lt_mset: "mset ys = mset xs \<Longrightarrow> count_lt ys x = count_lt xs x"
  unfolding count_lt_def by (metis mset_filter size_mset)

lemma count_le_mset: "mset ys = mset xs \<Longrightarrow> count_le ys x = count_le xs x"
  unfolding count_le_def by (metis mset_filter size_mset)

section \<open>Properties of frames\<close>

lemma bind_Inr [simp]: "bind (Inr x) f = f x"
  by (simp add: bind_def)

lemma bind_Inl [simp]: "bind (Inl e) f = Inl e"
  by (simp add: bind_def)

lemma map_of_replace:
  "map_of (map (\<lambda>(k, v). if k = name then (k, col) else (k, v)) df) k =
     (if k = name then (if name \<in> fst ` set df then Some col else None) else map_of df k)"
  by (induction df) force+

lemma map_of_set_col: "map_of (set_col df name col) = (map_of df)(name \<mapsto> col)"
proof (cases "name \<in> set (map fst df)")
  case True
  then show ?thesis
    by (auto simp: set_col_def map_of_replace fun_eq_iff)
next
  case False
  then have "map_of df name = None" by (simp add: map_of_eq_None_iff)
  with False show ?thesis
    by (auto simp: set_col_def map_add_def fun_eq_iff split: option.splits)
qed

lemma get_col_set_col:
  "get_col (set_col df name col) k = (if k = name then Inr col else get_col df k)"
  by (simp add: get_col_def map_of_set_col)

lemma apply_raising_Inr:
  "\<forall>x\<in>set xs. f x = Inr (g x) \<Longrightarrow> apply_raising f xs = Inr (map g xs)"
  by (induction xs) auto

lemma to_floats_map_Num: "to_floats (map (\<lambda>x. Num (f x)) xs) = Inr (map f xs)"
  unfolding to_floats_def
  by (induction xs) auto

lemma to_floats_is_num: "list_all is_num col \<Longrightarrow> to_floats col = Inr (map num_of col)"
  unfolding to_floats_def
proof (induction col)
  case Nil
  show ?case by simp
next
  case (Cons c cs)
  then show ?case by (cases c) auto
qed

lemma get_col_column_of: "has_col df name \<Longrightarrow> get_col df name = Inr (column_of df name)"
  by (auto simp: has_col_def get_col_def column_of_def)

section \<open>Properties of the field parsers\<close>

lemmas parse_eval =
  remove_char_def py_float_def py_strip_def py_isspace_def split_sign_def py_lower_def
  mkfin_def mkzero_def mkinf_def parse_number_def is_digit_def digit_val_def
  parse_exponent_def digits_value_def power_int_minus






section \<open>Properties of the transform\<close>

lemma to_floats_map_Num2:
  "to_floats (map (\<lambda>(a, b). Num (f a b)) xs) = Inr (map (\<lambda>(a, b). f a b) xs)"
  unfolding to_floats_def
  by (induction xs) auto

lemma percentrank_inc_range:
  assumes "x \<in> set (percentrank_inc values uf)"
  shows "\<exists>r. x = Fin r \<and> 0 \<le> r"
  using assms
  by (auto simp: percentrank_inc_def Let_def split: if_splits)

lemma rint_nonneg: "0 \<le> r \<Longrightarrow> 0 \<le> rint r"
  by (auto simp: rint_def Let_def)

lemma fmul_100: "0 \<le> r \<Longrightarrow> fmul (Fin r) (Fin 100) = Fin (r * 100)"
  by (simp add: fmul_def mkfin_def mkzero_def)

lemma np_round_0_nonneg: "0 \<le> q \<Longrightarrow> np_round 0 (Fin q) = Fin (of_int (rint q))"
  by (simp add: np_round_def mkfin_def mkzero_def)

lemma fmt_ownership_rank:
  assumes "0 \<le> r"
  shows "fmt_ownership_pct_rank (np_round 0 (fmul (Fin r) (Fin 100)))
     = Inr (int_str (rint (r * 100)) @ ''%'')"
proof -
  have "0 \<le> rint (r * 100)" using assms by (intro rint_nonneg) simp
  then show ?thesis
    using assms by (simp add: fmul_100 np_round_0_nonneg fmt_ownership_pct_rank_def py_int_def)
qed

lemma fmt_ownership_ranks:
  "apply_raising fmt_ownership_pct_rank
       (map (\<lambda>r. np_round 0 (fmul r (Fin 100))) (percentrank_inc values uf))
     = Inr (map (\<lambda>r. int_str (rint (fval r * 100)) @ ''%'') (percentrank_inc values uf))"
proof -
  have "apply_raising (\<lambda>r. fmt_ownership_pct_rank (np_round 0 (fmul r (Fin 100))))
          (percentrank_inc values uf)
     = Inr (map (\<lambda>r. int_str (rint (fval r * 100)) @ ''%'') (percentrank_inc values uf))"
  proof (rule apply_raising_Inr, rule ballI)
    fix x assume "x \<in> set (percentrank_inc values uf)"
    then obtain r where "x = Fin r" "0 \<le> r"
      using percentrank_inc_range by blast
    then show "fmt_ownership_pct_rank (np_round 0 (fmul x (Fin 100)))
        = Inr (int_str (rint (fval x * 100)) @ ''%'')"
      by (simp add: fmt_ownership_rank)
  qed
  moreover have "apply_raising f (map g xs) = apply_raising (\<lambda>x. f (g x)) xs"
    for f :: "pyfloat \<Rightarrow> error + string" and g :: "pyfloat \<Rightarrow> pyfloat" and xs
    by (induction xs) auto
  ultimately show ?thesis by simp
qed

lemma valid_input_cols:
  assumes "valid_input df n"
  shows "get_col df ''Player'' = Inr (column_of df ''Player'')"
    "get_col df ''DK Pos'' = Inr (column_of df ''DK Pos'')"
    "get_col df ''Team'' = Inr (column_of df ''Team'')"
    "get_col df ''Opp'' = Inr (column_of df ''Opp'')"
    "get_col df ''DK Salary'' = Inr (column_of df ''DK Salary'')"
    "get_col df ''DK Proj'' = Inr (column_of df ''DK Proj'')"
    "get_col df ''DK Value'' = Inr (column_of df ''DK Value'')"
    "get_col df ''Large Field'' = Inr (column_of df ''Large Field'')"
    "get_col df ''DK Floor'' = Inr (column_of df ''DK Floor'')"
    "get_col df ''DK Ceiling'' = Inr (column_of df ''DK Ceiling'')"
    "get_col df ''id'' = Inr (column_of df ''id'')"
  using assms by (simp_all add: valid_input_def read_cols_def get_col_column_of)

lemma valid_input_floats:
  assumes "valid_input df n"
  shows "to_floats (column_of df ''DK Ceiling'') = Inr (floats_of df ''DK Ceiling'')"
    "to_floats (column_of df ''DK Proj'') = Inr (floats_of df ''DK Proj'')"
  using assms by (simp_all add: valid_input_def floats_of_def to_floats_is_num)

lemma valid_input_map_of:
  assumes "valid_input df n"
  shows "map_of df ''Player'' = Some (column_of df ''Player'')"
    "map_of df ''DK Pos'' = Some (column_of df ''DK Pos'')"
    "map_of df ''Team'' = Some (column_of df ''Team'')"
    "map_of df ''Opp'' = Some (column_of df ''Opp'')"
    "map_of df ''DK Proj'' = Some (column_of df ''DK Proj'')"
    "map_of df ''DK Value'' = Some (column_of df ''DK Value'')"
    "map_of df ''DK Floor'' = Some (column_of df ''DK Floor'')"
    "map_of df ''DK Ceiling'' = Some (column_of df ''DK Ceiling'')"
    "map_of df ''id'' = Some (column_of df ''id'')"
  using assms by (auto simp: valid_input_def read_cols_def has_col_def column_of_def)

lemma transform_frame_valid:
  assumes "valid_input df n"
  shows "transform_frame df = Inr
     [(''Player'', column_of df ''Player''),
      (''DK Pos'', column_of df ''DK Pos''),
      (''Team'', column_of df ''Team''),
      (''Opp'', column_of df ''Opp''),
      (''DK Salary'', map (\<lambda>x. Str (fmt_salary x)) (salary_num df)),
      (''DK Proj'', column_of df ''DK Proj''),
      (''DK Value'', column_of df ''DK Value''),
      (''OWN_FRAC'', map (\<lambda>x. Num (np_round 2 (fdiv x (Fin 100)))) (large_field_pct df)),
      (''DK Floor'', column_of df ''DK Floor''),
      (''DK Ceiling'', column_of df ''DK Ceiling''),
      (''LEVERAGE_SCORE'',
         map (\<lambda>(c, x). Num (fmul c (fsub (Fin 1) (fdiv x (Fin 100)))))
           (zip (floats_of df ''DK Ceiling'') (large_field_pct df))),
      (''VALUE_PER_1k'',
         map (\<lambda>(p, s). Str (fmt_value_per_1k (fdiv p (fdiv s (Fin 1000)))))
           (zip (floats_of df ''DK Proj'') (salary_num df))),
      (''CEILING_PCT_RANK'',
         map (\<lambda>r. Str (fmt_ceiling_pct_rank (np_round 2 (fmul r (Fin 100))))) (ceiling_rank df)),
      (''OWNERSHIP_PCT_RANK'',
         map (\<lambda>r. Str (int_str (rint (fval r * 100)) @ ''%'')) (ownership_rank df)),
      (''leverage_delta'',
         map (\<lambda>(c, w). Str (fmt_leverage_delta
                (fsub (np_round 2 (fmul c (Fin 100))) (np_round 0 (fmul w (Fin 100))))))
           (zip (ceiling_rank df) (ownership_rank df))),
      (''id'', column_of df ''id'')]"
  unfolding transform_frame_def Let_def
  apply (simp add: valid_input_cols [OF assms] valid_input_floats [OF assms] get_col_set_col
      to_floats_map_Num to_floats_map_Num2 fmt_ownership_ranks)
  apply (simp add: select_cols_def out_cols_def map_of_set_col rename_cols_def out_rename_def
      valid_input_map_of [OF assms] salary_num_def large_field_pct_def ceiling_rank_def
      ownership_rank_def)
  apply (simp add: zip_map_map split_def comp_def)
  done

lemmas fmt_eval =
  fmt_fixed_def rint_def nat_digits.simps digit_char_def pad_digits_def group3.simps int_str_def
  fmt_salary_def fmt_value_per_1k_def fmt_ceiling_pct_rank_def fmt_leverage_delta_def
  np_round_def fmul_def fdiv_def fsub_def fadd_def mkfin_def mkzero_def mkinf_def Let_def

lemma column_length:
  assumes "valid_input df n" "has_col df name"
  shows "length (column_of df name) = n"
proof -
  from assms(2) obtain col where col: "map_of df name = Some col"
    by (auto simp: has_col_def)
  then have "(name, col) \<in> set df" by (rule map_of_SomeD)
  moreover from assms(1) have "\<forall>(k, v)\<in>set df. length v = n"
    by (simp add: valid_input_def wf_frame_def list_all_iff)
  ultimately have "length col = n" by blast
  with col show ?thesis by (simp add: column_of_def)
qed

lemma valid_input_lengths:
  assumes "valid_input df n"
  shows "length (salary_num df) = n" "length (large_field_pct df) = n"
    "length (floats_of df ''DK Ceiling'') = n" "length (floats_of df ''DK Proj'') = n"
    "length (ceiling_rank df) = n" "length (ownership_rank df) = n"
proof -
  have "has_col df ''DK Salary''" "has_col df ''Large Field''" "has_col df ''DK Ceiling''"
    "has_col df ''DK Proj''"
    using assms by (simp_all add: valid_input_def read_cols_def)
  then show "length (salary_num df) = n" "length (large_field_pct df) = n"
    "length (floats_of df ''DK Ceiling'') = n" "length (floats_of df ''DK Proj'') = n"
    "length (ceiling_rank df) = n" "length (ownership_rank df) = n"
    using column_length [OF assms]
    by (simp_all add: salary_num_def large_field_pct_def floats_of_def ceiling_rank_def
        ownership_rank_def length_percentrank_inc)
qed

lemma fmt_half: "fmt_ceiling_pct_rank (np_round 2 (fmul (Fin (1 / 2)) (Fin 100))) = ''50.00%''"
  by (simp add: fmt_eval)

lemma two_row_valid: "valid_input two_row_frame 2"
  by (simp add: valid_input_def wf_frame_def two_row_frame_def read_cols_def has_col_def
      column_of_def)

lemma four_row_valid: "valid_input four_row_frame 4"
  by (simp add: valid_input_def wf_frame_def four_row_frame_def read_cols_def has_col_def
      column_of_def)

lemmas rank_eval = percentrank_inc_def where_eq_def np_lt_def upt_rec

lemma transform_valid:
  assumes "files w input_csv = Some df" "valid_input df n" "transform_frame df = Inr out"
  shows "transform input_csv output_csv w =
     (Inr (), w\<lparr>files := (files w)(output_csv \<mapsto> out),
                stdout := stdout w
                  @ [''Saved transformed projections (large field) to '' @ output_csv]\<rparr>)"
  using assms by (simp add: transform_def)

lemma bind_eq_Inr: "bind m f = Inr y \<longleftrightarrow> (\<exists>x. m = Inr x \<and> f x = Inr y)"
  by (cases m) (auto simp: bind_def)

lemma get_col_Inr_has_col: "get_col df name = Inr col \<Longrightarrow> has_col df name"
  by (auto simp: get_col_def has_col_def split: option.splits)

lemma select_cols_Inr_has_col:
  assumes "select_cols df names = Inr out"
  shows "list_all (has_col df) names"
proof -
  from assms have "filter (\<lambda>name. map_of df name = None) names = []"
    by (auto simp: select_cols_def Let_def split: if_splits)
  then show ?thesis
    by (auto simp: filter_empty_conv has_col_def list_all_iff)
qed

lemma has_col_set_col: "has_col (set_col df name col) k \<longleftrightarrow> k = name \<or> has_col df k"
  by (simp add: has_col_def map_of_set_col)

lemma transform_frame_Inr_has_cols:
  assumes "transform_frame df = Inr out"
  shows "list_all (has_col df) read_cols"
proof -
  from assms obtain salary_col large_col ceiling_col proj_col df12 out_df where
    sal: "get_col df ''DK Salary'' = Inr salary_col"
    and lf: "get_col df ''Large Field'' = Inr large_col"
    and ceil: "get_col df ''DK Ceiling'' = Inr ceiling_col"
    and proj: "get_col df ''DK Proj'' = Inr proj_col"
    and sel: "select_cols df12 out_cols = Inr out_df"
    and keep: "has_col df12 = (\<lambda>k. k \<in> set [''salary_num'', ''OWN_FRAC'', ''LEVERAGE_SCORE'',
         ''VALUE_PER_1k_raw'', ''CEILING_PCT_RANK'', ''OWNERSHIP_PCT_RANK'', ''leverage_delta_raw'',
         ''DK Salary_out'', ''VALUE_PER_1k'', ''CEILING_PCT_RANK_out'', ''OWNERSHIP_PCT_RANK_out'',
         ''leverage_delta_out''] \<or> has_col df k)"
    unfolding transform_frame_def Let_def bind_eq_Inr get_col_set_col
    by (fastforce simp: has_col_set_col fun_eq_iff)
  from sel have "list_all (has_col df12) out_cols"
    by (rule select_cols_Inr_has_col)
  then have "has_col df ''Player''" "has_col df ''DK Pos''" "has_col df ''Team''"
    "has_col df ''Opp''" "has_col df ''DK Value''" "has_col df ''DK Floor''" "has_col df ''id''"
    by (simp_all add: keep out_cols_def)
  moreover have "has_col df ''DK Salary''" "has_col df ''Large Field''"
    "has_col df ''DK Ceiling''" "has_col df ''DK Proj''"
    using sal lf ceil proj by (auto dest: get_col_Inr_has_col)
  ultimately show ?thesis by (simp add: read_cols_def)
qed

lemma no_small_field_valid: "valid_input (drop_col ''Small Field'' two_row_frame) 2"
  by (simp add: valid_input_def wf_frame_def two_row_frame_def drop_col_def read_cols_def
      has_col_def column_of_def)

text \<open>
  C8. For a sequence of at most one element, under either tie-break, the ranker returns
  as many ranks as it was given values and every rank is \<open>0.0\<close>.
\<close>

theorem percentrank_inc_short:
  "length values \<le> 1 \<Longrightarrow>
     percentrank_inc values use_first = replicate (length values) (Fin 0)"
  by (simp add: percentrank_inc_def length_np_sort map_replicate_const)

theorem percentrank_inc_short_witness:
  "length [Fin 7] \<le> 1 \<and>
   percentrank_inc [Fin 7] True = replicate (length [Fin 7]) (Fin 0) "
  using percentrank_inc_short [of "[Fin 7]" True] by simp

text \<open>
  C5. The ranker is permutation-equivariant: when \<open>ys\<close> is \<open>xs\<close> rearranged by a
  permutation \<open>p\<close> of the indices (the element at \<open>i\<close> moves to \<open>p i\<close>), the
  rank at \<open>p i\<close> of \<open>ys\<close> is the rank at \<open>i\<close> of \<open>xs\<close>, under either tie-break.
\<close>

theorem percentrank_inc_permutation:
  assumes bij: "bij_betw p {..<length xs} {..<length xs}"
    and len: "length ys = length xs"
    and nth: "\<forall>i<length xs. ys ! (p i) = xs ! i"
    and i: "i < length xs"
  shows "percentrank_inc ys use_first ! (p i) = percentrank_inc xs use_first ! i"
proof -
  have ms: "mset ys = mset xs"
    using bij len nth by (rule mset_eq_of_bij)
  have pi: "p i < length xs"
    using bij i by (auto simp: bij_betw_def)
  show ?thesis
  proof (cases "2 \<le> length xs")
    case True
    have "percentrank_inc ys use_first ! (p i) =
       (if isnan (ys ! p i) then Fin (1 / 2)
        else Fin (real (if use_first then count_lt ys (ys ! p i) else count_le ys (ys ! p i) - 1)
                  / real (length ys - 1)))"
      using True pi len by (intro percentrank_inc_nth) simp_all
    also have "\<dots> =
       (if isnan (xs ! i) then Fin (1 / 2)
        else Fin (real (if use_first then count_lt xs (xs ! i) else count_le xs (xs ! i) - 1)
                  / real (length xs - 1)))"
      using nth i len by (simp add: count_lt_mset [OF ms] count_le_mset [OF ms])
    also have "\<dots> = percentrank_inc xs use_first ! i"
      using True i by (rule percentrank_inc_nth [symmetric])
    finally show ?thesis .
  next
    case False
    with i pi len show ?thesis
      by (simp add: percentrank_inc_def Let_def length_np_sort)
  qed
qed

theorem percentrank_inc_permutation_witness:
  "bij_betw (\<lambda>i. 1 - i) {..<length [Fin 3, Fin 1]} {..<length [Fin 3, Fin 1]} \<and>
   length [Fin 1, Fin 3] = length [Fin 3, Fin 1] \<and>
   [Fin 1, Fin 3] ! (1 - 0) = [Fin 3, Fin 1] ! 0 \<and>
   [Fin 1, Fin 3] ! (1 - 1) = [Fin 3, Fin 1] ! 1 \<and>
   (0::nat) < length [Fin 3, Fin 1] \<and>
   percentrank_inc [Fin 1, Fin 3] False ! (1 - 0) = percentrank_inc [Fin 3, Fin 1] False ! 0"
proof -
  have h1: "bij_betw (\<lambda>i. 1 - i) {..<length [Fin 3, Fin 1]} {..<length [Fin 3, Fin 1]}"
    by (rule bij_betw_byWitness [where f' = "\<lambda>i. 1 - i"]) auto
  have h2: "length [Fin 1, Fin 3] = length [Fin 3, Fin 1]" by simp
  have h3: "\<forall>i<length [Fin 3, Fin 1]. [Fin 1, Fin 3] ! (1 - i) = [Fin 3, Fin 1] ! i"
    by (auto simp: less_Suc_eq)
  have h4: "(0::nat) < length [Fin 3, Fin 1]" by simp
  from percentrank_inc_permutation [OF h1 h2 h3 h4, of False] h1 h2 h4
  show ?thesis by simp
qed

text \<open>
  C1, as amended. For a sequence of \<open>n \<ge> 2\<close> floats and an element \<open>values ! i\<close> that
  is not \<open>NaN\<close>, the rank at \<open>i\<close> is \<open>p / (n - 1)\<close>, where \<open>p\<close> is the first
  (\<open>use_first\<close>) or the last (otherwise) 0-indexed position at which the sorted sequence
  holds a value equal to \<open>values ! i\<close>. The sorted sequence is ascending and is a
  rearrangement of the values. For \<open>[5, 5]\<close> the last position gives \<open>1.0\<close> for both
  elements and the first gives \<open>0.0\<close> for both.
\<close>

theorem percentrank_inc_position:
  "(2 \<le> length values \<and> i < length values \<and> \<not> isnan (values ! i) \<longrightarrow>
     (\<exists>p<length values.
        percentrank_inc values use_first ! i = Fin (real p / real (length values - 1)) \<and>
        feq (np_sort values ! p) (values ! i) \<and>
        (\<forall>q<length values. feq (np_sort values ! q) (values ! i) \<longrightarrow>
           (if use_first then p \<le> q else q \<le> p)))) \<and>
   np_sorted (np_sort values) \<and> mset (np_sort values) = mset values \<and>
   percentrank_inc [Fin 5, Fin 5] False = [Fin 1, Fin 1] \<and>
   percentrank_inc [Fin 5, Fin 5] True = [Fin 0, Fin 0]"
proof -
  have general: "\<exists>p<length values.
        percentrank_inc values use_first ! i = Fin (real p / real (length values - 1)) \<and>
        feq (np_sort values ! p) (values ! i) \<and>
        (\<forall>q<length values. feq (np_sort values ! q) (values ! i) \<longrightarrow>
           (if use_first then p \<le> q else q \<le> p))"
    if n: "2 \<le> length values" and i: "i < length values" and nn: "\<not> isnan (values ! i)"
  proof -
    let ?x = "values ! i"
    let ?a = "count_lt values ?x" and ?b = "count_le values ?x"
    let ?p = "if use_first then ?a else ?b - 1"
    from i have "?x \<in> set values" by simp
    then have ab: "?a < ?b" using nn by (rule count_lt_less_le)
    have bn: "?b \<le> length values" by (rule count_le_length)
    have w: "where_eq (np_sort values) ?x = [?a ..< ?b]"
      using nn by (rule where_eq_np_sort)
    have mem: "feq (np_sort values ! q) ?x \<longleftrightarrow> ?a \<le> q \<and> q < ?b" if "q < length values" for q
    proof -
      have "q \<in> set (where_eq (np_sort values) ?x) \<longleftrightarrow> feq (np_sort values ! q) ?x"
        using that by (simp add: where_eq_def length_np_sort)
      then show ?thesis by (simp add: w)
    qed
    have p: "?p < length values" using ab bn by auto
    have "percentrank_inc values use_first ! i = Fin (real ?p / real (length values - 1))"
      using percentrank_inc_nth [OF n i, of use_first] nn by simp
    moreover have "feq (np_sort values ! ?p) ?x"
      using mem [OF p] ab by auto
    moreover have "\<forall>q<length values. feq (np_sort values ! q) ?x \<longrightarrow>
           (if use_first then ?p \<le> q else q \<le> ?p)"
      using mem by auto
    ultimately show ?thesis using p by blast
  qed
  have ex1: "percentrank_inc [Fin 5, Fin 5] False = [Fin 1, Fin 1]"
    by (simp add: percentrank_inc_def where_eq_def np_lt_def upt_rec)
  have ex2: "percentrank_inc [Fin 5, Fin 5] True = [Fin 0, Fin 0]"
    by (simp add: percentrank_inc_def where_eq_def np_lt_def upt_rec)
  show ?thesis
    using general ex1 ex2 by (simp add: np_sorted_np_sort mset_np_sort)
qed

theorem percentrank_inc_position_witness:
  "2 \<le> length [Fin 3, Fin 1, Fin 3] \<and> (0::nat) < length [Fin 3, Fin 1, Fin 3] \<and>
   \<not> isnan ([Fin 3, Fin 1, Fin 3] ! 0) \<and>
   (\<exists>p<length [Fin 3, Fin 1, Fin 3].
      percentrank_inc [Fin 3, Fin 1, Fin 3] False ! 0
        = Fin (real p / real (length [Fin 3, Fin 1, Fin 3] - 1)) \<and>
      feq (np_sort [Fin 3, Fin 1, Fin 3] ! p) ([Fin 3, Fin 1, Fin 3] ! 0) \<and>
      (\<forall>q<length [Fin 3, Fin 1, Fin 3].
         feq (np_sort [Fin 3, Fin 1, Fin 3] ! q) ([Fin 3, Fin 1, Fin 3] ! 0) \<longrightarrow>
           (if False then p \<le> q else q \<le> p)))"
proof -
  have h: "2 \<le> length [Fin 3, Fin 1, Fin 3] \<and> (0::nat) < length [Fin 3, Fin 1, Fin 3] \<and>
      \<not> isnan ([Fin 3, Fin 1, Fin 3] ! 0)"
    by simp
  from percentrank_inc_position [of "[Fin 3, Fin 1, Fin 3]" 0 False] h
  show ?thesis by blast
qed

text \<open>
  C1 as stated, for every sequence of floats, fails on a \<open>NaN\<close>: in \<open>[NaN, 1.0]\<close> the
  sorted sequence holds no value equal to the first element, at position 0 or 1, and its
  rank is \<open>0.5\<close>, which is neither \<open>0 / (n - 1)\<close> nor \<open>1 / (n - 1)\<close>.
\<close>

theorem percentrank_inc_position_counterexample:
  "percentrank_inc [NaN, Fin 1] True ! 0 = Fin (1 / 2) \<and>
   percentrank_inc [NaN, Fin 1] False ! 0 = Fin (1 / 2) \<and>
   Fin (1 / 2) \<noteq> Fin (real 0 / real (length [NaN, Fin 1] - 1)) \<and>
   Fin (1 / 2) \<noteq> Fin (real 1 / real (length [NaN, Fin 1] - 1)) \<and>
   \<not> feq (np_sort [NaN, Fin 1] ! 0) ([NaN, Fin 1] ! 0) \<and>
   \<not> feq (np_sort [NaN, Fin 1] ! 1) ([NaN, Fin 1] ! 0)"
  by (simp add: percentrank_inc_def where_eq_def np_lt_def upt_rec)

text \<open>
  C10. A \<open>NaN\<close> is equal to no element of the sorted sequence, so in a sequence of
  \<open>n \<ge> 2\<close> values the rank of a \<open>NaN\<close> element is the fallback \<open>0.5\<close>. The fallback
  is reached through the transform: on a valid input of at least two rows, a row whose
  ceiling cell is missing gets the ceiling percent rank \<open>50.00%\<close>, not a missing rank.
\<close>

theorem nan_ranked_at_half:
  "(2 \<le> length values \<and> i < length values \<and> isnan (values ! i) \<longrightarrow>
      where_eq (np_sort values) (values ! i) = [] \<and>
      percentrank_inc values use_first ! i = Fin (1 / 2)) \<and>
   (valid_input df n \<and> 2 \<le> n \<and> k < n \<and> column_of df ''DK Ceiling'' ! k = Num NaN \<longrightarrow>
      (\<exists>out col. transform_frame df = Inr out \<and>
         map_of out ''CEILING_PCT_RANK'' = Some col \<and> col ! k = Str ''50.00%''))"
proof -
  have ranker: "where_eq (np_sort values) (values ! i) = [] \<and>
      percentrank_inc values use_first ! i = Fin (1 / 2)"
    if "2 \<le> length values" "i < length values" "isnan (values ! i)"
  proof -
    from that(3) have "values ! i = NaN" by (cases "values ! i") auto
    then show ?thesis
      using percentrank_inc_nth [OF that(1,2), of use_first] by (simp add: where_eq_NaN)
  qed
  have pipeline: "\<exists>out col. transform_frame df = Inr out \<and>
         map_of out ''CEILING_PCT_RANK'' = Some col \<and> col ! k = Str ''50.00%''"
    if v: "valid_input df n" and n: "2 \<le> n" and k: "k < n"
      and c: "column_of df ''DK Ceiling'' ! k = Num NaN"
  proof -
    let ?vals = "floats_of df ''DK Ceiling''"
    have len: "length ?vals = n" using v by (rule valid_input_lengths)
    have "length (column_of df ''DK Ceiling'') = n"
      using len by (simp add: floats_of_def)
    with k c have "?vals ! k = NaN" by (simp add: floats_of_def)
    then have "ceiling_rank df ! k = Fin (1 / 2)"
      using percentrank_inc_nth [of ?vals k False] n k len by (simp add: ceiling_rank_def)
    moreover have "k < length (ceiling_rank df)"
      using k valid_input_lengths(5) [OF v] by simp
    ultimately show ?thesis
      by (simp add: transform_frame_valid [OF v] fmt_half)
  qed
  from ranker pipeline show ?thesis by blast
qed

theorem nan_ranked_at_half_witness:
  "2 \<le> length [Fin 1, NaN] \<and> 1 < length [Fin 1, NaN] \<and> isnan ([Fin 1, NaN] ! 1) \<and>
   where_eq (np_sort [Fin 1, NaN]) ([Fin 1, NaN] ! 1) = [] \<and>
   percentrank_inc [Fin 1, NaN] True ! 1 = Fin (1 / 2) \<and>
   valid_input four_row_frame 4 \<and> (2::nat) \<le> 4 \<and> (2::nat) < 4 \<and>
   column_of four_row_frame ''DK Ceiling'' ! 2 = Num NaN \<and>
   (\<exists>out col. transform_frame four_row_frame = Inr out \<and>
      map_of out ''CEILING_PCT_RANK'' = Some col \<and> col ! 2 = Str ''50.00%'')"
proof -
  have h1: "2 \<le> length [Fin 1, NaN] \<and> 1 < length [Fin 1, NaN] \<and> isnan ([Fin 1, NaN] ! 1)"
    by simp
  have h2: "valid_input four_row_frame 4 \<and> (2::nat) \<le> 4 \<and> (2::nat) < 4 \<and>
      column_of four_row_frame ''DK Ceiling'' ! 2 = Num NaN"
    by (simp add: four_row_valid) (simp add: column_of_def four_row_frame_def)
  from nan_ranked_at_half [of "[Fin 1, NaN]" 1 True four_row_frame 4 2] h1 h2
  show ?thesis by blast
qed





text \<open>
  C2. End to end, for an input file whose table is valid, has exactly two rows, ceilings
  \<open>[10, 20]\<close> and large-field ownership texts \<open>"50%"\<close> and \<open>"50%"\<close>: the transform
  succeeds and writes a table with ownership fractions \<open>0.50\<close> and \<open>0.50\<close>, leverage
  scores \<open>5.0\<close> and \<open>10.0\<close>, ceiling percent ranks \<open>"0.00%"\<close> and \<open>"100.00%"\<close>,
  ownership percent ranks \<open>"0%"\<close> and \<open>"0%"\<close>, and leverage deltas \<open>"0.0%"\<close> and
  \<open>"100.0%"\<close>.
\<close>

theorem transform_two_rows:
  assumes "files w input_csv = Some df"
    and "valid_input df 2"
    and "column_of df ''DK Ceiling'' = [Num (Fin 10), Num (Fin 20)]"
    and "column_of df ''Large Field'' = [Str ''50%'', Str ''50%'']"
  shows "\<exists>out.
     transform input_csv output_csv w =
       (Inr (), w\<lparr>files := (files w)(output_csv \<mapsto> out),
                  stdout := stdout w
                    @ [''Saved transformed projections (large field) to '' @ output_csv]\<rparr>) \<and>
     map_of out ''OWN_FRAC'' = Some [Num (Fin (50 / 100)), Num (Fin (50 / 100))] \<and>
     map_of out ''LEVERAGE_SCORE'' = Some [Num (Fin 5), Num (Fin 10)] \<and>
     map_of out ''CEILING_PCT_RANK'' = Some [Str ''0.00%'', Str ''100.00%''] \<and>
     map_of out ''OWNERSHIP_PCT_RANK'' = Some [Str ''0%'', Str ''0%''] \<and>
     map_of out ''leverage_delta'' = Some [Str ''0.0%'', Str ''100.0%'']"
proof -
  have pct: "large_field_pct df = [Fin 50, Fin 50]"
    using assms(4) by (simp add: large_field_pct_def parse_eval)
  have ceil: "floats_of df ''DK Ceiling'' = [Fin 10, Fin 20]"
    using assms(3) by (simp add: floats_of_def)
  have cr: "ceiling_rank df = [Fin 0, Fin 1]"
    by (simp add: ceiling_rank_def ceil rank_eval)
  have orank: "ownership_rank df = [Fin 0, Fin 0]"
    by (simp add: ownership_rank_def pct rank_eval)
  obtain out where out: "transform_frame df = Inr out"
    and "map_of out ''OWN_FRAC''
        = Some (map (\<lambda>x. Num (np_round 2 (fdiv x (Fin 100)))) (large_field_pct df))"
    and "map_of out ''LEVERAGE_SCORE''
        = Some (map (\<lambda>(c, x). Num (fmul c (fsub (Fin 1) (fdiv x (Fin 100)))))
                 (zip (floats_of df ''DK Ceiling'') (large_field_pct df)))"
    and "map_of out ''CEILING_PCT_RANK''
        = Some (map (\<lambda>r. Str (fmt_ceiling_pct_rank (np_round 2 (fmul r (Fin 100)))))
                 (ceiling_rank df))"
    and "map_of out ''OWNERSHIP_PCT_RANK''
        = Some (map (\<lambda>r. Str (int_str (rint (fval r * 100)) @ ''%'')) (ownership_rank df))"
    and "map_of out ''leverage_delta''
        = Some (map (\<lambda>(c, w). Str (fmt_leverage_delta
                   (fsub (np_round 2 (fmul c (Fin 100))) (np_round 0 (fmul w (Fin 100))))))
                 (zip (ceiling_rank df) (ownership_rank df)))"
    by (simp add: transform_frame_valid [OF assms(2)])
  then have "map_of out ''OWN_FRAC'' = Some [Num (Fin (50 / 100)), Num (Fin (50 / 100))]"
    and "map_of out ''LEVERAGE_SCORE'' = Some [Num (Fin 5), Num (Fin 10)]"
    and "map_of out ''CEILING_PCT_RANK'' = Some [Str ''0.00%'', Str ''100.00%'']"
    and "map_of out ''OWNERSHIP_PCT_RANK'' = Some [Str ''0%'', Str ''0%'']"
    and "map_of out ''leverage_delta'' = Some [Str ''0.0%'', Str ''100.0%'']"
    by (simp_all add: pct ceil cr orank fmt_eval)
  with transform_valid [OF assms(1,2) out, of output_csv] show ?thesis by blast
qed

theorem transform_two_rows_witness:
  "files (example_world two_row_frame) ''in.csv'' = Some two_row_frame \<and>
   valid_input two_row_frame 2 \<and>
   column_of two_row_frame ''DK Ceiling'' = [Num (Fin 10), Num (Fin 20)] \<and>
   column_of two_row_frame ''Large Field'' = [Str ''50%'', Str ''50%''] \<and>
   (\<exists>out.
     transform ''in.csv'' ''out.csv'' (example_world two_row_frame) =
       (Inr (), (example_world two_row_frame)
          \<lparr>files := (files (example_world two_row_frame))(''out.csv'' \<mapsto> out),
           stdout := stdout (example_world two_row_frame)
             @ [''Saved transformed projections (large field) to '' @ ''out.csv'']\<rparr>) \<and>
     map_of out ''OWN_FRAC'' = Some [Num (Fin (50 / 100)), Num (Fin (50 / 100))] \<and>
     map_of out ''LEVERAGE_SCORE'' = Some [Num (Fin 5), Num (Fin 10)] \<and>
     map_of out ''CEILING_PCT_RANK'' = Some [Str ''0.00%'', Str ''100.00%''] \<and>
     map_of out ''OWNERSHIP_PCT_RANK'' = Some [Str ''0%'', Str ''0%''] \<and>
     map_of out ''leverage_delta'' = Some [Str ''0.0%'', Str ''100.0%''])"
proof -
  have h1: "files (example_world two_row_frame) ''in.csv'' = Some two_row_frame"
    by (simp add: example_world_def)
  have h2: "valid_input two_row_frame 2" by (rule two_row_valid)
  have h3: "column_of two_row_frame ''DK Ceiling'' = [Num (Fin 10), Num (Fin 20)]"
    by (simp add: column_of_def two_row_frame_def)
  have h4: "column_of two_row_frame ''Large Field'' = [Str ''50%'', Str ''50%'']"
    by (simp add: column_of_def two_row_frame_def)
  from transform_two_rows [OF h1 h2 h3 h4, of "''out.csv''"] h1 h2 h3 h4
  show ?thesis by blast
qed






text \<open>
  C9, as amended. If a column that the transform reads is absent from the input table,
  the run fails before any output is produced: \<open>transform\<close> raises, no file is written
  and nothing is printed. The columns read are the expected input columns except
  \<open>Small Field\<close>.
\<close>

theorem missing_read_column_fails:
  "(files w input_csv = Some df \<and> c \<in> set read_cols \<and> \<not> has_col df c \<longrightarrow>
      (\<exists>e. transform input_csv output_csv w = (Inl e, w))) \<and>
   set read_cols = set col_map_names - {''Small Field''}"
proof -
  have fails: "\<exists>e. transform input_csv output_csv w = (Inl e, w)"
    if f: "files w input_csv = Some df" and c: "c \<in> set read_cols" and n: "\<not> has_col df c"
  proof (cases "transform_frame df")
    case (Inl e)
    with f show ?thesis by (simp add: transform_def)
  next
    case (Inr out)
    then have "list_all (has_col df) read_cols"
      by (rule transform_frame_Inr_has_cols)
    with c n show ?thesis by (simp add: list_all_iff)
  qed
  have "set read_cols = set col_map_names - {''Small Field''}"
    by (auto simp: read_cols_def col_map_names_def)
  with fails show ?thesis by blast
qed

theorem missing_read_column_fails_witness:
  "files (example_world (drop_col ''DK Floor'' two_row_frame)) ''in.csv''
     = Some (drop_col ''DK Floor'' two_row_frame) \<and>
   ''DK Floor'' \<in> set read_cols \<and>
   \<not> has_col (drop_col ''DK Floor'' two_row_frame) ''DK Floor'' \<and>
   (\<exists>e. transform ''in.csv'' ''out.csv'' (example_world (drop_col ''DK Floor'' two_row_frame))
      = (Inl e, example_world (drop_col ''DK Floor'' two_row_frame)))"
proof -
  have h1: "files (example_world (drop_col ''DK Floor'' two_row_frame)) ''in.csv''
     = Some (drop_col ''DK Floor'' two_row_frame)"
    by (simp add: example_world_def)
  have h2: "''DK Floor'' \<in> set read_cols"
    by (simp add: read_cols_def)
  have h3: "\<not> has_col (drop_col ''DK Floor'' two_row_frame) ''DK Floor''"
    by (simp add: has_col_def drop_col_def two_row_frame_def)
  from missing_read_column_fails
    [of "example_world (drop_col ''DK Floor'' two_row_frame)" "''in.csv''"
      "drop_col ''DK Floor'' two_row_frame" "''DK Floor''" "''out.csv''"]
    h1 h2 h3
  show ?thesis by blast
qed

text \<open>
  C9 as stated, for every expected input column, fails for \<open>Small Field\<close>, which the
  transform never reads: on \<open>two_row_frame\<close> without that column the run succeeds, writes
  the output file and prints its confirmation.
\<close>

theorem missing_small_field_counterexample:
  "''Small Field'' \<in> set col_map_names \<and>
   \<not> has_col (drop_col ''Small Field'' two_row_frame) ''Small Field'' \<and>
   fst (transform ''in.csv'' ''out.csv'' (example_world (drop_col ''Small Field'' two_row_frame)))
     = Inr () \<and>
   files (snd (transform ''in.csv'' ''out.csv''
       (example_world (drop_col ''Small Field'' two_row_frame)))) ''out.csv''
     = Some (projr (transform_frame (drop_col ''Small Field'' two_row_frame))) \<and>
   \<not> isl (transform_frame (drop_col ''Small Field'' two_row_frame)) \<and>
   stdout (snd (transform ''in.csv'' ''out.csv''
       (example_world (drop_col ''Small Field'' two_row_frame))))
     = [''Saved transformed projections (large field) to out.csv'']"
proof -
  let ?df = "drop_col ''Small Field'' two_row_frame"
  obtain out where out: "transform_frame ?df = Inr out"
    by (simp add: transform_frame_valid [OF no_small_field_valid])
  have "files (example_world ?df) ''in.csv'' = Some ?df"
    by (simp add: example_world_def)
  then have "transform ''in.csv'' ''out.csv'' (example_world ?df) =
     (Inr (), (example_world ?df)\<lparr>files := (files (example_world ?df))(''out.csv'' \<mapsto> out),
        stdout := stdout (example_world ?df)
          @ [''Saved transformed projections (large field) to '' @ ''out.csv'']\<rparr>)"
    using no_small_field_valid out by (rule transform_valid)
  moreover have "''Small Field'' \<in> set col_map_names"
    by (simp add: col_map_names_def)
  moreover have "\<not> has_col ?df ''Small Field''"
    by (simp add: has_col_def drop_col_def two_row_frame_def)
  ultimately show ?thesis
    by (simp add: out example_world_def)
qed

end
